theory Spec2Isabelle
  imports Complex_Main
begin

section \<open>The detection handlers of the monkey detector\<close>

text \<open>
  The repository has two GUI classes with a \<^verbatim>\<open>handle_detection\<close> slot.
  \<^verbatim>\<open>FixedMonkeyDetectorGUI\<close> (monkey_detector_app.py) tracks one sighting with
  the fields \<^verbatim>\<open>monkey_present\<close>, \<^verbatim>\<open>no_detection_frames\<close> and
  \<^verbatim>\<open>min_gap_frames\<close>; \<^verbatim>\<open>MonkeyDetectionGUI\<close> (monkey_detection_gui.py)
  counts with a cooldown in seconds. Both are embedded below: the object is a record,
  a method takes the object and returns the updated object together with the list of the
  things it did to the widgets, the serial port and the log, in program order.

  Python's \<^verbatim>\<open>int\<close> is \<^typ>\<open>int\<close>. Confidences and clock readings are Python floats;
  they are taken as \<^typ>\<open>real\<close>, which is exact for the only arithmetic done on them
  (one subtraction and one comparison of clock readings in the cooldown test). The clock
  reading of a call (\<^verbatim>\<open>time.time()\<close>, \<^verbatim>\<open>datetime.now()\<close>) is an argument of the
  model. The \<^verbatim>\<open>frame\<close> argument of the slot is never read by
  \<^verbatim>\<open>FixedMonkeyDetectorGUI.handle_detection\<close> and is left out.
\<close>

subsection \<open>What a handler does to its surroundings\<close>

datatype status_text =
    NewMonkeyDetected real    \<comment> \<open>\<^verbatim>\<open>NEW MONKEY DETECTED! ({confidence:.2f})\<close>\<close>
  | TrackingSameMonkey real   \<comment> \<open>\<^verbatim>\<open>Tracking Same Monkey ({confidence:.2f})\<close>\<close>
  | Monitoring                \<comment> \<open>\<^verbatim>\<open>Status: Monitoring...\<close>\<close>

datatype arduino_command = MONKEY_DETECTED | STOP_ALERT

datatype message =
    MsgNewMonkey int real     \<comment> \<open>\<^verbatim>\<open>NEW MONKEY DETECTED! Count: {n}, Confidence: {c:.2f}\<close>\<close>
  | MsgMonkeyLeft             \<comment> \<open>\<^verbatim>\<open>Monkey left area - Ready for new detection\<close>\<close>
  | MsgDetectionStarted       \<comment> \<open>\<^verbatim>\<open>AI detection started with improved logic\<close>\<close>
  | MsgLoadModelFirst         \<comment> \<open>\<^verbatim>\<open>Please load an AI model first!\<close>\<close>
  | MsgStartCameraFirst       \<comment> \<open>\<^verbatim>\<open>Please start camera first!\<close>\<close>
  | MsgMonkeyDetected real    \<comment> \<open>\<^verbatim>\<open>MONKEY DETECTED! Confidence: {c:.2f}\<close>\<close>

datatype effect =
    SetDetectionCountLabel int
  | SetCurrentStatus status_text
  | SetLastDetectionLabel real
  | SetSystemStatusDetectionActive
  | ArduinoWrite arduino_command
  | LogMessage message
  | ShowError message
  | StartDetectionThread
  | SaveFrame real

subsection \<open>\<^verbatim>\<open>FixedMonkeyDetectorGUI\<close>\<close>

text \<open>
  The fields assigned by \<^verbatim>\<open>__init__\<close>. \<^verbatim>\<open>model\<close> and \<^verbatim>\<open>arduino\<close> hold
  \<^verbatim>\<open>None\<close> or an object and are only tested for truth, so they are booleans here;
  \<^verbatim>\<open>camera\<close> is \<^verbatim>\<open>None\<close> or a capture whose \<^verbatim>\<open>isOpened()\<close> is the
  boolean under \<^const>\<open>Some\<close>.
\<close>

record gui =
  model :: bool
  arduino :: bool
  camera :: "bool option"
  detection_active :: bool
  arduino_connected :: bool
  confidence_threshold :: real
  detection_count :: int
  monkey_present :: bool
  detection_start_time :: "real option"
  no_detection_frames :: int
  min_gap_frames :: int

definition init_gui :: gui where
  "init_gui =
     \<lparr> model = False, arduino = False, camera = None, detection_active = False,
       arduino_connected = False, confidence_threshold = 0.5, detection_count = 0,
       monkey_present = False, detection_start_time = None, no_detection_frames = 0,
       min_gap_frames = 30 \<rparr>"

text \<open>
  The serial write sits in \<^verbatim>\<open>try: ... except: pass\<close>: it is attempted when the
  port is connected, and a failure changes nothing else.
\<close>

definition arduino_alert :: "gui \<Rightarrow> arduino_command \<Rightarrow> effect list" where
  "arduino_alert s c = (if arduino_connected s \<and> arduino s then [ArduinoWrite c] else [])"

definition start_detection :: "gui \<Rightarrow> gui \<times> effect list" where
  "start_detection s =
     (if \<not> model s then (s, [ShowError MsgLoadModelFirst])
      else if camera s = None \<or> camera s = Some False then (s, [ShowError MsgStartCameraFirst])
      else
        (s\<lparr> detection_active := True, monkey_present := False,
            detection_start_time := None, no_detection_frames := 0 \<rparr>,
         [StartDetectionThread, LogMessage MsgDetectionStarted, SetSystemStatusDetectionActive]))"

definition handle_detection :: "real \<Rightarrow> bool \<Rightarrow> real \<Rightarrow> gui \<Rightarrow> gui \<times> effect list" where
  "handle_detection now detected confidence s =
     (if detected then
        (let s1 = s\<lparr> no_detection_frames := 0 \<rparr> in
         if \<not> monkey_present s1 then
           (let s2 = s1\<lparr> monkey_present := True,
                          detection_count := detection_count s1 + 1,
                          detection_start_time := Some now \<rparr>
            in (s2,
                [SetDetectionCountLabel (detection_count s2),
                 SetCurrentStatus (NewMonkeyDetected confidence),
                 SetLastDetectionLabel now]
                @ arduino_alert s2 MONKEY_DETECTED
                @ [LogMessage (MsgNewMonkey (detection_count s2) confidence)]))
         else (s1, [SetCurrentStatus (TrackingSameMonkey confidence)]))
      else
        (let s1 = s\<lparr> no_detection_frames := no_detection_frames s + 1 \<rparr> in
         if monkey_present s1 \<and> no_detection_frames s1 \<ge> min_gap_frames s1 then
           (s1\<lparr> monkey_present := False \<rparr>,
            [SetCurrentStatus Monitoring] @ arduino_alert s1 STOP_ALERT
            @ [LogMessage MsgMonkeyLeft])
         else if \<not> monkey_present s1 then (s1, [SetCurrentStatus Monitoring])
         else (s1, [])))"

subsection \<open>The events of the specification, read off what a call did\<close>

text \<open>
  The handler returns nothing; the four outcomes the specification names are recognised
  by what the call did. A new sighting is the call that logs the new-monkey line, an
  ended sighting the call that logs that the monkey left, an ongoing sighting the call
  that shows the tracking status; every other call is idle.
\<close>

datatype sighting_event =
    SightingStarted int real
  | SightingOngoing real
  | SightingEnded
  | Idle

fun event_of :: "effect list \<Rightarrow> sighting_event" where
  "event_of [] = Idle"
| "event_of (LogMessage (MsgNewMonkey n c) # es) = SightingStarted n c"
| "event_of (LogMessage MsgMonkeyLeft # es) = SightingEnded"
| "event_of (SetCurrentStatus (TrackingSameMonkey c) # es) = SightingOngoing c"
| "event_of (e # es) = event_of es"

text \<open>
  One observation is the clock reading at delivery, the flag and the confidence. The
  detection thread emits them one after the other and the slot runs once for each.
\<close>

type_synonym observation = "real \<times> bool \<times> real"

definition observe :: "observation \<Rightarrow> gui \<Rightarrow> gui" where
  "observe x s = (case x of (now, detected, confidence) \<Rightarrow>
                    fst (handle_detection now detected confidence s))"

definition observe_event :: "observation \<Rightarrow> gui \<Rightarrow> sighting_event" where
  "observe_event x s = (case x of (now, detected, confidence) \<Rightarrow>
                          event_of (snd (handle_detection now detected confidence s)))"

fun final_state :: "gui \<Rightarrow> observation list \<Rightarrow> gui" where
  "final_state s [] = s"
| "final_state s (x # xs) = final_state (observe x s) xs"

fun events :: "gui \<Rightarrow> observation list \<Rightarrow> sighting_event list" where
  "events s [] = []"
| "events s (x # xs) = observe_event x s # events (observe x s) xs"

text \<open>The three fields the sighting logic reads and writes.\<close>

definition sighting :: "gui \<Rightarrow> bool \<times> int \<times> int" where
  "sighting s = (monkey_present s, detection_count s, no_detection_frames s)"

text \<open>The number of calls in a run that found the monkey absent and left it present.\<close>

fun rising_edges :: "gui \<Rightarrow> observation list \<Rightarrow> nat" where
  "rising_edges s [] = 0"
| "rising_edges s (x # xs) =
     (if \<not> monkey_present s \<and> monkey_present (observe x s) then 1 else 0)
     + rising_edges (observe x s) xs"

text \<open>The states after each call of a run, in order.\<close>

fun trace :: "gui \<Rightarrow> observation list \<Rightarrow> gui list" where
  "trace s [] = []"
| "trace s (x # xs) = observe x s # trace (observe x s) xs"

definition detected_of :: "observation \<Rightarrow> bool" where
  "detected_of x = fst (snd x)"

definition missed :: "observation \<Rightarrow> bool" where
  "missed x = (\<not> detected_of x)"



definition is_ongoing :: "sighting_event \<Rightarrow> bool" where
  "is_ongoing e = (case e of SightingOngoing c \<Rightarrow> True | _ \<Rightarrow> False)"


text \<open>The commands written to the serial port, by one call and over a run.\<close>

fun writes_of :: "effect list \<Rightarrow> arduino_command list" where
  "writes_of [] = []"
| "writes_of (ArduinoWrite c # es) = c # writes_of es"
| "writes_of (e # es) = writes_of es"

fun arduino_writes :: "gui \<Rightarrow> observation list \<Rightarrow> arduino_command list" where
  "arduino_writes s [] = []"
| "arduino_writes s ((now, detected, confidence) # xs) =
     writes_of (snd (handle_detection now detected confidence s))
     @ arduino_writes (observe (now, detected, confidence) s) xs"

text \<open>Everything one call does, and everything each call of a run does, in order.\<close>

definition observe_effects :: "observation \<Rightarrow> gui \<Rightarrow> effect list" where
  "observe_effects x s = (case x of (now, detected, confidence) \<Rightarrow>
                            snd (handle_detection now detected confidence s))"

fun run_effects :: "gui \<Rightarrow> observation list \<Rightarrow> effect list list" where
  "run_effects s [] = []"
| "run_effects s (x # xs) = observe_effects x s # run_effects (observe x s) xs"






subsection \<open>\<^verbatim>\<open>MonkeyDetectionGUI\<close>, the handler with a cooldown in seconds\<close>





section \<open>Single calls\<close>

lemma observe_detected_absent:
  "\<not> monkey_present s \<Longrightarrow>
   sighting (observe (t, True, c) s) = (True, detection_count s + 1, 0)"
  by (simp add: observe_def handle_detection_def sighting_def Let_def)

lemma observe_detected_present:
  "monkey_present s \<Longrightarrow> sighting (observe (t, True, c) s) = (True, detection_count s, 0)"
  by (simp add: observe_def handle_detection_def sighting_def Let_def)

lemma observe_missed_absent:
  "\<not> monkey_present s \<Longrightarrow>
   sighting (observe (t, False, c) s) = (False, detection_count s, no_detection_frames s + 1)"
  by (simp add: observe_def handle_detection_def sighting_def Let_def)

lemma observe_missed_present:
  "monkey_present s \<Longrightarrow>
   sighting (observe (t, False, c) s) =
     (\<not> min_gap_frames s \<le> no_detection_frames s + 1, detection_count s,
      no_detection_frames s + 1)"
  by (simp add: observe_def handle_detection_def sighting_def Let_def)

lemma observe_min_gap_frames [simp]: "min_gap_frames (observe x s) = min_gap_frames s"
  by (cases x) (simp add: observe_def handle_detection_def Let_def)

lemma event_detected_absent:
  "\<not> monkey_present s \<Longrightarrow>
   observe_event (t, True, c) s = SightingStarted (detection_count s + 1) c"
  by (simp add: observe_event_def handle_detection_def arduino_alert_def Let_def)

lemma event_detected_present:
  "monkey_present s \<Longrightarrow> observe_event (t, True, c) s = SightingOngoing c"
  by (simp add: observe_event_def handle_detection_def Let_def)

lemma event_missed_absent:
  "\<not> monkey_present s \<Longrightarrow> observe_event (t, False, c) s = Idle"
  by (simp add: observe_event_def handle_detection_def Let_def)

lemma event_missed_present:
  "monkey_present s \<Longrightarrow>
   observe_event (t, False, c) s =
     (if min_gap_frames s \<le> no_detection_frames s + 1 then SightingEnded else Idle)"
  by (simp add: observe_event_def handle_detection_def arduino_alert_def Let_def)

lemma observe_event_cases:
  "observe_event (t, d, c) s =
     (if d then (if monkey_present s then SightingOngoing c
                 else SightingStarted (detection_count s + 1) c)
      else if monkey_present s \<and> min_gap_frames s \<le> no_detection_frames s + 1
           then SightingEnded else Idle)"
  by (simp add: observe_event_def handle_detection_def arduino_alert_def Let_def)

lemma observe_count_cases:
  "detection_count (observe (t, d, c) s) =
     (if d \<and> \<not> monkey_present s then detection_count s + 1 else detection_count s)"
  by (simp add: observe_def handle_detection_def Let_def)

lemma observe_present_cases:
  "monkey_present (observe (t, d, c) s) =
     (if d then True
      else monkey_present s \<and> \<not> min_gap_frames s \<le> no_detection_frames s + 1)"
  by (simp add: observe_def handle_detection_def Let_def)

lemma writes_cases:
  "writes_of (snd (handle_detection t d c s)) =
     (if arduino_connected s \<and> arduino s then
        (if d then (if monkey_present s then [] else [MONKEY_DETECTED])
         else if monkey_present s \<and> min_gap_frames s \<le> no_detection_frames s + 1
              then [STOP_ALERT] else [])
      else [])"
  by (simp add: handle_detection_def arduino_alert_def Let_def)

lemma observe_arduino [simp]:
  "arduino (observe x s) = arduino s"
  "arduino_connected (observe x s) = arduino_connected s"
  by (cases x; simp add: observe_def handle_detection_def Let_def)+

lemma missed_triple [simp]: "missed (t, d, c) = (\<not> d)"
  by (simp add: missed_def detected_of_def)

lemma detected_of_triple [simp]: "detected_of (t, d, c) = d"
  by (simp add: detected_of_def)

lemma sighting_fields:
  "sighting s = (p, n, k) \<longleftrightarrow>
     monkey_present s = p \<and> detection_count s = n \<and> no_detection_frames s = k"
  by (auto simp: sighting_def)

section \<open>Runs\<close>

lemma final_state_append: "final_state s (xs @ ys) = final_state (final_state s xs) ys"
  by (induction xs arbitrary: s) simp_all



lemma final_state_min_gap_frames [simp]: "min_gap_frames (final_state s xs) = min_gap_frames s"
  by (induction xs arbitrary: s) simp_all

lemma final_state_arduino [simp]:
  "arduino (final_state s xs) = arduino s"
  "arduino_connected (final_state s xs) = arduino_connected s"
  by (induction xs arbitrary: s) simp_all

text \<open>
  While the monkey is present, misses that do not reach the gap change nothing but the
  counter, and nothing is written to the serial port.
\<close>

lemma misses_within_gap:
  "monkey_present s \<Longrightarrow> list_all missed xs \<Longrightarrow>
   no_detection_frames s + int (length xs) < min_gap_frames s \<Longrightarrow>
   sighting (final_state s xs)
     = (True, detection_count s, no_detection_frames s + int (length xs))
   \<and> list_all (\<lambda>e. e = Idle) (events s xs)
   \<and> arduino_writes s xs = []"
proof (induction xs arbitrary: s)
  case Nil
  then show ?case by (simp add: sighting_def)
next
  case (Cons x xs)
  obtain t d c where x: "x = (t, d, c)" by (cases x)
  from Cons.prems have d: "\<not> d" and rest: "list_all missed xs" by (simp_all add: x)
  from Cons.prems have lt: "no_detection_frames s + 1 < min_gap_frames s" by simp
  have step: "sighting (observe x s) = (True, detection_count s, no_detection_frames s + 1)"
    using observe_missed_present[OF Cons.prems(1), of t c] d lt by (simp add: x)
  have ev: "observe_event x s = Idle"
    using event_missed_present[OF Cons.prems(1), of t c] d lt by (simp add: x)
  have wr: "writes_of (snd (handle_detection t d c s)) = []"
    using d lt by (simp add: writes_cases)
  from step have p: "monkey_present (observe x s)"
    and n: "detection_count (observe x s) = detection_count s"
    and k: "no_detection_frames (observe x s) = no_detection_frames s + 1"
    by (simp_all add: sighting_fields)
  have "no_detection_frames (observe x s) + int (length xs) < min_gap_frames (observe x s)"
    using Cons.prems(3) k by simp
  from Cons.IH[OF p rest this] show ?case
    using ev n k wr by (simp add: add.assoc x)
qed

text \<open>While the monkey is absent, misses only count frames.\<close>

lemma misses_while_absent:
  "\<not> monkey_present s \<Longrightarrow> list_all missed xs \<Longrightarrow>
   sighting (final_state s xs)
     = (False, detection_count s, no_detection_frames s + int (length xs))
   \<and> list_all (\<lambda>e. e = Idle) (events s xs)"
proof (induction xs arbitrary: s)
  case Nil
  then show ?case by (simp add: sighting_def)
next
  case (Cons x xs)
  obtain t d c where x: "x = (t, d, c)" by (cases x)
  from Cons.prems have d: "\<not> d" and rest: "list_all missed xs" by (simp_all add: x)
  have step: "sighting (observe x s) = (False, detection_count s, no_detection_frames s + 1)"
    using observe_missed_absent[OF Cons.prems(1), of t c] d by (simp add: x)
  have ev: "observe_event x s = Idle"
    using event_missed_absent[OF Cons.prems(1), of t c] d by (simp add: x)
  from step have p: "\<not> monkey_present (observe x s)"
    and n: "detection_count (observe x s) = detection_count s"
    and k: "no_detection_frames (observe x s) = no_detection_frames s + 1"
    by (simp_all add: sighting_fields)
  from Cons.IH[OF p rest] show ?case
    using ev n k by (simp add: add.assoc)
qed

text \<open>While the monkey is present and the counter is clear, detections change nothing.\<close>

lemma detections_while_present:
  "monkey_present s \<Longrightarrow> no_detection_frames s = 0 \<Longrightarrow> list_all detected_of xs \<Longrightarrow>
   sighting (final_state s xs) = sighting s \<and> list_all is_ongoing (events s xs)"
proof (induction xs arbitrary: s)
  case Nil
  show ?case by simp
next
  case (Cons x xs)
  obtain t d c where x: "x = (t, d, c)" by (cases x)
  from Cons.prems have d: "d" and rest: "list_all detected_of xs" by (simp_all add: x)
  have step: "sighting (observe x s) = sighting s"
    using observe_detected_present[OF Cons.prems(1), of t c] Cons.prems(1,2) d
    by (simp add: x sighting_def)
  then have p: "monkey_present (observe x s)" and k: "no_detection_frames (observe x s) = 0"
    using Cons.prems(1,2) by (simp_all add: sighting_def)
  have ev: "is_ongoing (observe_event x s)"
    using Cons.prems(1) d by (simp add: x observe_event_cases is_ongoing_def)
  from Cons.IH[OF p k rest] step ev show ?case by simp
qed

lemma count_is_rising_edges:
  "detection_count (final_state s xs) = detection_count s + int (rising_edges s xs)"
proof (induction xs arbitrary: s)
  case Nil
  show ?case by simp
next
  case (Cons x xs)
  obtain t d c where x: "x = (t, d, c)" by (cases x)
  show ?case
    by (simp add: Cons.IH x observe_count_cases observe_present_cases)
qed





section \<open>What the calls of a run send out\<close>

lemma observe_effects_cases:
  "observe_effects (t, d, c) s =
     (if d then
        (if monkey_present s then [SetCurrentStatus (TrackingSameMonkey c)]
         else [SetDetectionCountLabel (detection_count s + 1),
               SetCurrentStatus (NewMonkeyDetected c), SetLastDetectionLabel t]
              @ (if arduino_connected s \<and> arduino s then [ArduinoWrite MONKEY_DETECTED] else [])
              @ [LogMessage (MsgNewMonkey (detection_count s + 1) c)])
      else if monkey_present s \<and> min_gap_frames s \<le> no_detection_frames s + 1 then
        [SetCurrentStatus Monitoring]
        @ (if arduino_connected s \<and> arduino s then [ArduinoWrite STOP_ALERT] else [])
        @ [LogMessage MsgMonkeyLeft]
      else if monkey_present s then [] else [SetCurrentStatus Monitoring])"
  by (simp add: observe_effects_def handle_detection_def arduino_alert_def Let_def)









text \<open>While the monkey is present, a call with a detection only shows the tracking status.\<close>

lemma detections_while_present_effects:
  "monkey_present s \<Longrightarrow> list_all detected_of xs \<Longrightarrow>
   run_effects s xs = map (\<lambda>x. [SetCurrentStatus (TrackingSameMonkey (snd (snd x)))]) xs"
proof (induction xs arbitrary: s)
  case Nil
  show ?case by simp
next
  case (Cons x xs)
  obtain t d c where x: "x = (t, d, c)" by (cases x)
  from Cons.prems have d: "d" and rest: "list_all detected_of xs" by (simp_all add: x)
  have p: "monkey_present (observe x s)"
    using d by (simp add: x observe_present_cases)
  from Cons.IH[OF p rest] Cons.prems(1) d show ?case
    by (simp add: x observe_effects_cases)
qed

text \<open>While the monkey is absent, a call without a detection only shows the monitoring status.\<close>

lemma misses_while_absent_effects:
  "\<not> monkey_present s \<Longrightarrow> list_all missed xs \<Longrightarrow>
   run_effects s xs = map (\<lambda>x. [SetCurrentStatus Monitoring]) xs"
proof (induction xs arbitrary: s)
  case Nil
  show ?case by simp
next
  case (Cons x xs)
  obtain t d c where x: "x = (t, d, c)" by (cases x)
  from Cons.prems have d: "\<not> d" and rest: "list_all missed xs" by (simp_all add: x)
  have p: "\<not> monkey_present (observe x s)"
    using d Cons.prems(1) by (simp add: x observe_present_cases)
  from Cons.IH[OF p rest] Cons.prems(1) d show ?case
    by (simp add: x observe_effects_cases)
qed

section \<open>The count of sightings\<close>

text \<open>
  Claim C1. Over any run of \<^verbatim>\<open>handle_detection\<close> from any state, the final
  \<^verbatim>\<open>detection_count\<close> is the initial one plus the number of calls that found the
  monkey absent and left it present. In one call the count goes up by exactly one when
  the monkey is detected while absent (and the monkey is then present), it never goes
  down, and it does not change when the call starts with the monkey present.
\<close>

theorem detection_count_counts_rising_edges:
  "detection_count (final_state s xs) = detection_count s + int (rising_edges s xs)
   \<and> (detected_of x \<and> \<not> monkey_present s \<longrightarrow>
        detection_count (observe x s) = detection_count s + 1 \<and> monkey_present (observe x s))
   \<and> detection_count s \<le> detection_count (observe x s)
   \<and> (monkey_present s \<longrightarrow> detection_count (observe x s) = detection_count s)"
  by (cases x) (simp add: count_is_rising_edges observe_count_cases observe_present_cases)

text \<open>
  The first instance starts absent and sees a detection; the second starts present, in
  the state the first call leaves, and sees another detection.
\<close>

theorem detection_count_counts_rising_edges_witness:
  "detected_of (0, True, 0.9) \<and> \<not> monkey_present init_gui
   \<and> detection_count (observe (0, True, 0.9) init_gui) = 1
   \<and> monkey_present (observe (0, True, 0.9) init_gui)
   \<and> detection_count (observe (1, True, 0.8) (observe (0, True, 0.9) init_gui)) = 1
   \<and> detection_count
        (final_state init_gui [(0, True, 0.9), (1, True, 0.8), (2, False, 0)])
       = 0 + int (rising_edges init_gui [(0, True, 0.9), (1, True, 0.8), (2, False, 0)])"
proof -
  have a: "detected_of (0::real, True, 0.9::real)" "\<not> monkey_present init_gui"
    "detection_count init_gui = 0"
    by (simp_all add: init_gui_def)
  note absent = detection_count_counts_rising_edges
      [of init_gui "[(0, True, 0.9), (1, True, 0.8), (2, False, 0)]" "(0, True, 0.9)"]
  note present = detection_count_counts_rising_edges
      [of "observe (0, True, 0.9) init_gui" "[]" "(1, True, 0.8)"]
  from absent a have b: "detection_count (observe (0, True, 0.9) init_gui) = 1"
    "monkey_present (observe (0, True, 0.9) init_gui)"
    by simp_all
  from present b have "detection_count (observe (1, True, 0.8) (observe (0, True, 0.9) init_gui)) = 1"
    by simp
  with absent a b show ?thesis by simp
qed

section \<open>The gap of thirty frames\<close>



section \<open>What the departure resets\<close>

text \<open>
  Claim C3 says that the call that takes the monkey from present to absent also sets
  \<^verbatim>\<open>no_detection_frames\<close> to 0. It does not: after a detection and 29 misses the
  monkey is present, and the 30th miss leaves it absent with the counter at 30.
\<close>

theorem departure_counter_not_reset:
  "monkey_present (final_state init_gui ((0, True, 0.9) # replicate 29 (1, False, 0)))
   \<and> \<not> monkey_present
         (final_state init_gui ((0, True, 0.9) # replicate 29 (1, False, 0) @ [(2, False, 0)]))
   \<and> no_detection_frames
         (final_state init_gui ((0, True, 0.9) # replicate 29 (1, False, 0) @ [(2, False, 0)]))
       = 30"
proof -
  let ?s = "observe (0, True, 0.9) init_gui"
  let ?xs = "replicate 29 (1::real, False, 0::real)"
  have a: "monkey_present ?s" "no_detection_frames ?s = 0" "min_gap_frames ?s = 30"
    "detection_count ?s = 1"
    by (simp_all add: observe_def handle_detection_def init_gui_def Let_def)
  have b: "list_all missed ?xs" by (simp add: list_all_iff)
  have "no_detection_frames ?s + int (length ?xs) < min_gap_frames ?s"
    using a by simp
  from misses_within_gap[OF a(1) b this] a
  have st: "sighting (final_state ?s ?xs) = (True, 1, 29)" by simp
  then have p: "monkey_present (final_state ?s ?xs)"
    and k: "no_detection_frames (final_state ?s ?xs) = 29"
    by (simp_all add: sighting_fields)
  from observe_missed_present[OF p, of 2 0] k a
  have "sighting (observe (2, False, 0) (final_state ?s ?xs)) = (False, 1, 30)"
    using st by (simp add: sighting_fields)
  with p show ?thesis
    by (simp add: final_state_append sighting_fields)
qed

text \<open>
  Claim C3, amended. The call that takes the monkey from present to absent (no detection,
  the monkey present, the incremented counter at \<^verbatim>\<open>min_gap_frames\<close> or more) sets
  \<^verbatim>\<open>monkey_present\<close> to false and leaves \<^verbatim>\<open>no_detection_frames\<close> at its incremented
  value; the counter returns to 0 at the next call with a detection.
\<close>

theorem departure_leaves_absence_counter:
  assumes "monkey_present s" and "min_gap_frames s \<le> no_detection_frames s + 1"
  shows "\<not> monkey_present (observe (t, False, c) s)
         \<and> no_detection_frames (observe (t, False, c) s) = no_detection_frames s + 1
         \<and> min_gap_frames s \<le> no_detection_frames (observe (t, False, c) s)
         \<and> no_detection_frames (observe (t', True, c') (observe (t, False, c) s)) = 0"
  using assms by (simp add: observe_def handle_detection_def Let_def)

theorem departure_leaves_absence_counter_witness:
  "monkey_present
     (init_gui\<lparr> monkey_present := True, detection_count := 1, no_detection_frames := 29 \<rparr>)
   \<and> min_gap_frames
       (init_gui\<lparr> monkey_present := True, detection_count := 1, no_detection_frames := 29 \<rparr>)
       \<le> no_detection_frames
            (init_gui\<lparr> monkey_present := True, detection_count := 1,
                        no_detection_frames := 29 \<rparr>) + 1
   \<and> \<not> monkey_present
       (observe (0, False, 0)
          (init_gui\<lparr> monkey_present := True, detection_count := 1, no_detection_frames := 29 \<rparr>))
   \<and> no_detection_frames
       (observe (0, False, 0)
          (init_gui\<lparr> monkey_present := True, detection_count := 1, no_detection_frames := 29 \<rparr>))
       = 30
   \<and> no_detection_frames
         (observe (1, True, 0.9)
            (observe (0, False, 0)
               (init_gui\<lparr> monkey_present := True, detection_count := 1,
                           no_detection_frames := 29 \<rparr>))) = 0"
proof -
  let ?s = "init_gui\<lparr> monkey_present := True, detection_count := 1, no_detection_frames := 29 \<rparr>"
  have a: "monkey_present ?s" "min_gap_frames ?s \<le> no_detection_frames ?s + 1"
    by (simp_all add: init_gui_def)
  from departure_leaves_absence_counter[OF a, of 0 0 1 "0.9"] a show ?thesis by simp
qed

section \<open>Starting a session\<close>

text \<open>
  Claim C4 says that the reset in \<^verbatim>\<open>start_detection\<close> gives the sighting state of a
  new object, count 0 included, from every prior state. The count is not reset: start a
  session on a new object with a model and an open camera, see one detection, start again;
  the count is still 1, where a new object has 0.
\<close>

theorem start_detection_not_fresh:
  "sighting
     (fst (start_detection
        (observe (0, True, 0.9)
           (fst (start_detection (init_gui\<lparr> model := True, camera := Some True \<rparr>))))))
   = (False, 1, 0)
   \<and> sighting init_gui = (False, 0, 0)"
  by (simp add: sighting_def start_detection_def observe_def handle_detection_def init_gui_def
      Let_def)

text \<open>
  Claim C4, amended. When a model is loaded and the camera is open, the reset in
  \<^verbatim>\<open>start_detection\<close> sets \<^verbatim>\<open>monkey_present\<close> to false,
  \<^verbatim>\<open>no_detection_frames\<close> to 0 and \<^verbatim>\<open>detection_start_time\<close> to \<^verbatim>\<open>None\<close>, and
  leaves \<^verbatim>\<open>detection_count\<close> as it was; the sighting state is that of a new object
  exactly when the prior count is 0.
\<close>

theorem start_detection_keeps_detection_count:
  assumes "model s" and "camera s = Some True"
  shows "sighting (fst (start_detection s)) = (False, detection_count s, 0)
         \<and> detection_start_time (fst (start_detection s)) = None
         \<and> (sighting (fst (start_detection s)) = sighting init_gui \<longleftrightarrow> detection_count s = 0)"
  using assms by (simp add: sighting_def start_detection_def init_gui_def)

theorem start_detection_keeps_detection_count_witness:
  "model (init_gui\<lparr> model := True, camera := Some True,
       detection_count := 2, monkey_present := True, no_detection_frames := 7 \<rparr>)
   \<and> camera (init_gui\<lparr> model := True, camera := Some True,
       detection_count := 2, monkey_present := True, no_detection_frames := 7 \<rparr>) = Some True
   \<and> sighting (fst (start_detection (init_gui\<lparr> model := True, camera := Some True,
       detection_count := 2, monkey_present := True, no_detection_frames := 7 \<rparr>)))
   = (False, 2, 0)"
proof -
  let ?s = "init_gui\<lparr> model := True, camera := Some True,
       detection_count := 2, monkey_present := True, no_detection_frames := 7 \<rparr>"
  have a: "model ?s" "camera ?s = Some True" by simp_all
  from start_detection_keeps_detection_count[OF a] a show ?thesis by simp
qed

section \<open>The scenario with a gap of three frames\<close>

text \<open>
  Claim C5 says that with a gap of 3 the sequence T,F,F,T,F,F,F,F ends the sighting only
  at the fourth miss after the second detection. The sighting ends at the third: the
  seventh call is the one that ends it, and the eighth is idle.
\<close>

theorem gap_three_ended_on_third_miss:
  "events (init_gui\<lparr> min_gap_frames := 3 \<rparr>)
     [(0, True, 0.9), (1, False, 0), (2, False, 0), (3, True, 0.8),
      (4, False, 0), (5, False, 0), (6, False, 0), (7, False, 0)] ! 6 = SightingEnded
   \<and> events (init_gui\<lparr> min_gap_frames := 3 \<rparr>)
     [(0, True, 0.9), (1, False, 0), (2, False, 0), (3, True, 0.8),
      (4, False, 0), (5, False, 0), (6, False, 0), (7, False, 0)] ! 7 = Idle"
  by (simp add: observe_def observe_event_def handle_detection_def init_gui_def Let_def
      arduino_alert_def)

text \<open>
  Claim C5, amended. With a gap of 3, the sequence T,F,F,T,F,F,F,F from the initial state
  gives one start (with count 1), two idle calls, an ongoing call, two idle calls, the
  end of the sighting at the third miss after the second detection, and an idle call;
  the final count is 1. The new-monkey line is logged by the first call only and the
  monkey-left line by the seventh only.
\<close>

theorem gap_three_scenario_events:
  "events (init_gui\<lparr> min_gap_frames := 3 \<rparr>)
     [(t1, True, c1), (t2, False, c2), (t3, False, c3), (t4, True, c4),
      (t5, False, c5), (t6, False, c6), (t7, False, c7), (t8, False, c8)]
   = [SightingStarted 1 c1, Idle, Idle, SightingOngoing c4, Idle, Idle, SightingEnded, Idle]
   \<and> detection_count
       (final_state (init_gui\<lparr> min_gap_frames := 3 \<rparr>)
          [(t1, True, c1), (t2, False, c2), (t3, False, c3), (t4, True, c4),
           (t5, False, c5), (t6, False, c6), (t7, False, c7), (t8, False, c8)]) = 1
   \<and> run_effects (init_gui\<lparr> min_gap_frames := 3 \<rparr>)
       [(t1, True, c1), (t2, False, c2), (t3, False, c3), (t4, True, c4),
        (t5, False, c5), (t6, False, c6), (t7, False, c7), (t8, False, c8)]
     = [[SetDetectionCountLabel 1, SetCurrentStatus (NewMonkeyDetected c1),
         SetLastDetectionLabel t1, LogMessage (MsgNewMonkey 1 c1)],
        [], [],
        [SetCurrentStatus (TrackingSameMonkey c4)],
        [], [],
        [SetCurrentStatus Monitoring, LogMessage MsgMonkeyLeft],
        [SetCurrentStatus Monitoring]]"
  by (simp add: observe_def observe_event_def observe_effects_def handle_detection_def
      init_gui_def Let_def arduino_alert_def)

theorem gap_three_scenario_events_witness:
  "events (init_gui\<lparr> min_gap_frames := 3 \<rparr>)
     [(0, True, 0.9), (1, False, 0), (2, False, 0), (3, True, 0.8),
      (4, False, 0), (5, False, 0), (6, False, 0), (7, False, 0)]
   = [SightingStarted 1 0.9, Idle, Idle, SightingOngoing 0.8, Idle, Idle, SightingEnded, Idle]"
  using gap_three_scenario_events[of 0 "0.9" 1 0 2 0 3 "0.8" 4 0 5 0 6 0 7 0] by simp

section \<open>Detections while the monkey is present\<close>

text \<open>
  Claim C6. A call with a detection while the monkey is present, whatever the value of
  \<^verbatim>\<open>no_detection_frames\<close>, keeps the monkey present, leaves the count unchanged and
  sets the counter to 0. All it does besides is show the tracking status with the
  confidence: it logs nothing and writes nothing to the serial port, so it announces
  neither a sighting nor the end of one. Any number of further calls with a detection
  leave present, count and counter as that one call left them, and each of them again
  does nothing but show the tracking status.
\<close>

theorem detection_while_present_idempotent:
  assumes "monkey_present s"
  shows "sighting (observe (t, True, c) s) = (True, detection_count s, 0)
         \<and> observe_event (t, True, c) s = SightingOngoing c
         \<and> observe_effects (t, True, c) s = [SetCurrentStatus (TrackingSameMonkey c)]
         \<and> (list_all detected_of xs \<longrightarrow>
              sighting (final_state (observe (t, True, c) s) xs)
                = sighting (observe (t, True, c) s)
              \<and> list_all is_ongoing (events (observe (t, True, c) s) xs)
              \<and> run_effects (observe (t, True, c) s) xs
                  = map (\<lambda>x. [SetCurrentStatus (TrackingSameMonkey (snd (snd x)))]) xs)"
proof -
  have st: "sighting (observe (t, True, c) s) = (True, detection_count s, 0)"
    by (rule observe_detected_present[OF assms])
  then have p: "monkey_present (observe (t, True, c) s)"
    and k: "no_detection_frames (observe (t, True, c) s) = 0"
    by (simp_all add: sighting_fields)
  have eff: "observe_effects (t, True, c) s = [SetCurrentStatus (TrackingSameMonkey c)]"
    using assms by (simp add: observe_effects_cases)
  show ?thesis
    using st eff event_detected_present[OF assms, of t c]
      detections_while_present[OF p k, of xs] detections_while_present_effects[OF p, of xs]
    by simp
qed

text \<open>The instance is a detection that comes twelve frames into an absence run.\<close>

theorem detection_while_present_idempotent_witness:
  "monkey_present
     (init_gui\<lparr> monkey_present := True, detection_count := 1, no_detection_frames := 12 \<rparr>)
   \<and> sighting (observe (5, True, 0.7)
        (init_gui\<lparr> monkey_present := True, detection_count := 1, no_detection_frames := 12 \<rparr>))
       = (True, 1, 0)
   \<and> observe_effects (5, True, 0.7)
        (init_gui\<lparr> monkey_present := True, detection_count := 1, no_detection_frames := 12 \<rparr>)
       = [SetCurrentStatus (TrackingSameMonkey 0.7)]
   \<and> list_all detected_of [(6, True, 0.6), (7, True, 0.95)]
   \<and> sighting (final_state (observe (5, True, 0.7)
        (init_gui\<lparr> monkey_present := True, detection_count := 1, no_detection_frames := 12 \<rparr>))
        [(6, True, 0.6), (7, True, 0.95)]) = (True, 1, 0)
   \<and> run_effects (observe (5, True, 0.7)
        (init_gui\<lparr> monkey_present := True, detection_count := 1, no_detection_frames := 12 \<rparr>))
        [(6, True, 0.6), (7, True, 0.95)]
       = [[SetCurrentStatus (TrackingSameMonkey 0.6)],
          [SetCurrentStatus (TrackingSameMonkey 0.95)]]"
proof -
  let ?s = "init_gui\<lparr> monkey_present := True, detection_count := 1, no_detection_frames := 12 \<rparr>"
  have a: "monkey_present ?s" by simp
  have b: "list_all detected_of [(6::real, True, 0.6::real), (7, True, 0.95)]" by simp
  from detection_while_present_idempotent[OF a, of 5 "0.7" "[(6, True, 0.6), (7, True, 0.95)]"]
    a b
  show ?thesis by (simp add: init_gui_def)
qed

section \<open>Starts and ends alternate\<close>



section \<open>Clock readings\<close>







section \<open>Confidences\<close>

lemma observe_sighting_cong:
  "sighting s = sighting s' \<Longrightarrow> min_gap_frames s = min_gap_frames s' \<Longrightarrow>
   sighting (observe (t, d, c) s) = sighting (observe (t', d, c') s')"
  by (simp add: sighting_def observe_def handle_detection_def Let_def)

lemma trace_sighting_cong:
  "sighting s = sighting s' \<Longrightarrow> min_gap_frames s = min_gap_frames s' \<Longrightarrow>
   map detected_of xs = map detected_of ys \<Longrightarrow>
   map sighting (trace s xs) = map sighting (trace s' ys)"
proof (induction xs arbitrary: s s' ys)
  case Nil
  then show ?case by simp
next
  case (Cons x xs)
  from Cons.prems(3) obtain y ys' where ys: "ys = y # ys'"
    and xy: "detected_of x = detected_of y" and rest: "map detected_of xs = map detected_of ys'"
    by (cases ys) auto
  obtain t d c where x: "x = (t, d, c)" by (cases x)
  obtain t' c' where y: "y = (t', d, c')" using xy x by (cases y) simp
  have step: "sighting (observe x s) = sighting (observe y s')"
    unfolding x y by (rule observe_sighting_cong[OF Cons.prems(1,2)])
  have "min_gap_frames (observe x s) = min_gap_frames (observe y s')"
    using Cons.prems(2) by simp
  from Cons.IH[OF step this rest] step show ?case by (simp add: ys)
qed

text \<open>
  Claim C9. Two runs from the same state whose observations have the same flags, with
  any confidences (and any instants), have the same present, count and counter after
  every call.
\<close>

theorem confidence_noninterference:
  assumes "map detected_of xs = map detected_of ys"
  shows "map sighting (trace s xs) = map sighting (trace s ys)"
  by (rule trace_sighting_cong[OF refl refl assms])

theorem confidence_noninterference_witness:
  "map detected_of [(0::real, True, 0.55::real), (1, False, 0), (2, True, 0.6)]
     = map detected_of [(0, True, 0.99), (1, False, 0.3), (2, True, 0.51)]
   \<and> map sighting (trace init_gui [(0, True, 0.55), (1, False, 0), (2, True, 0.6)])
     = map sighting (trace init_gui [(0, True, 0.99), (1, False, 0.3), (2, True, 0.51)])"
proof -
  have a: "map detected_of [(0::real, True, 0.55::real), (1, False, 0), (2, True, 0.6)]
     = map detected_of [(0, True, 0.99), (1, False, 0.3), (2, True, 0.51)]" by simp
  from confidence_noninterference[OF a, of init_gui] a show ?thesis by simp
qed

section \<open>Misses while the monkey is absent\<close>

text \<open>
  What the counter holds while the monkey is absent is never seen: from an absent
  state, any other value of the counter gives the same events, the same effects call for
  call, and the same present and count after every call.
\<close>

lemma stale_counter_unobservable:
  "\<not> monkey_present s \<Longrightarrow>
   events (s\<lparr> no_detection_frames := k \<rparr>) ys = events s ys
   \<and> run_effects (s\<lparr> no_detection_frames := k \<rparr>) ys = run_effects s ys
   \<and> map (\<lambda>u. (monkey_present u, detection_count u))
         (trace (s\<lparr> no_detection_frames := k \<rparr>) ys)
     = map (\<lambda>u. (monkey_present u, detection_count u)) (trace s ys)"
proof (induction ys arbitrary: s k)
  case Nil
  show ?case by simp
next
  case (Cons x ys)
  obtain t d c where x: "x = (t, d, c)" by (cases x)
  show ?case
  proof (cases d)
    case True
    have "observe x (s\<lparr> no_detection_frames := k \<rparr>) = observe x s"
      using True by (simp add: x observe_def handle_detection_def Let_def)
    moreover have "observe_event x (s\<lparr> no_detection_frames := k \<rparr>) = observe_event x s"
      using True by (simp add: x observe_event_cases)
    moreover have "observe_effects x (s\<lparr> no_detection_frames := k \<rparr>) = observe_effects x s"
      using True by (simp add: x observe_effects_cases)
    ultimately show ?thesis by simp
  next
    case False
    have st: "observe x (s\<lparr> no_detection_frames := k \<rparr>)
                = (observe x s)\<lparr> no_detection_frames := k + 1 \<rparr>"
      using False Cons.prems by (simp add: x observe_def handle_detection_def Let_def)
    have ev: "observe_event x (s\<lparr> no_detection_frames := k \<rparr>) = observe_event x s"
      using False Cons.prems by (simp add: x observe_event_cases)
    have eff: "observe_effects x (s\<lparr> no_detection_frames := k \<rparr>) = observe_effects x s"
      using False Cons.prems by (simp add: x observe_effects_cases)
    have p: "\<not> monkey_present (observe x s)"
      using False Cons.prems by (simp add: x observe_present_cases)
    from Cons.IH[OF p, of "k + 1"] st ev eff show ?thesis by simp
  qed
qed

text \<open>
  Claim C10. While the monkey is absent, calls without a detection leave
  \<^verbatim>\<open>monkey_present\<close> and \<^verbatim>\<open>detection_count\<close> unchanged, each adds one to
  \<^verbatim>\<open>no_detection_frames\<close>, with no bound, and each does nothing but show the
  monitoring status: nothing is logged and nothing is written to the serial port. The
  next call with a detection sets the counter to 0 and is the start of a sighting with
  the count one higher; it does what a start does and nothing else, so it neither logs
  that the monkey left nor writes \<^verbatim>\<open>STOP_ALERT\<close>. The value the counter had reached
  has no effect on anything a call does, on presence or on the count, in that call or
  later.
\<close>

theorem absent_misses_only_count_frames:
  assumes "\<not> monkey_present s" and "list_all missed xs"
  shows "sighting (final_state s xs)
           = (False, detection_count s, no_detection_frames s + int (length xs))
         \<and> list_all (\<lambda>e. e = Idle) (events s xs)
         \<and> run_effects s xs = map (\<lambda>x. [SetCurrentStatus Monitoring]) xs
         \<and> sighting (observe (t, True, c) (final_state s xs)) = (True, detection_count s + 1, 0)
         \<and> observe_event (t, True, c) (final_state s xs)
             = SightingStarted (detection_count s + 1) c
         \<and> observe_effects (t, True, c) (final_state s xs)
             = [SetDetectionCountLabel (detection_count s + 1),
                SetCurrentStatus (NewMonkeyDetected c), SetLastDetectionLabel t]
               @ (if arduino_connected s \<and> arduino s then [ArduinoWrite MONKEY_DETECTED]
                  else [])
               @ [LogMessage (MsgNewMonkey (detection_count s + 1) c)]
         \<and> events (s\<lparr> no_detection_frames := k \<rparr>) ys = events s ys
         \<and> run_effects (s\<lparr> no_detection_frames := k \<rparr>) ys = run_effects s ys
         \<and> map (\<lambda>u. (monkey_present u, detection_count u))
               (trace (s\<lparr> no_detection_frames := k \<rparr>) ys)
             = map (\<lambda>u. (monkey_present u, detection_count u)) (trace s ys)"
proof -
  from misses_while_absent[OF assms]
  have st: "sighting (final_state s xs)
              = (False, detection_count s, no_detection_frames s + int (length xs))"
    and idle: "list_all (\<lambda>e. e = Idle) (events s xs)"
    by simp_all
  from st have p: "\<not> monkey_present (final_state s xs)"
    and n: "detection_count (final_state s xs) = detection_count s"
    by (simp_all add: sighting_fields)
  have eff: "observe_effects (t, True, c) (final_state s xs)
             = [SetDetectionCountLabel (detection_count s + 1),
                SetCurrentStatus (NewMonkeyDetected c), SetLastDetectionLabel t]
               @ (if arduino_connected s \<and> arduino s then [ArduinoWrite MONKEY_DETECTED]
                  else [])
               @ [LogMessage (MsgNewMonkey (detection_count s + 1) c)]"
    using p n by (simp add: observe_effects_cases)
  show ?thesis
    using st idle eff misses_while_absent_effects[OF assms]
      observe_detected_absent[OF p, of t c] event_detected_absent[OF p, of t c] n
      stale_counter_unobservable[OF assms(1), of k ys]
    by simp
qed

text \<open>
  Forty misses from the initial state, with the port connected, pass the gap of thirty;
  then a detection.
\<close>

theorem absent_misses_only_count_frames_witness:
  "\<not> monkey_present (init_gui\<lparr> arduino := True, arduino_connected := True \<rparr>)
   \<and> list_all missed (replicate 40 (0, False, 0))
   \<and> sighting (final_state (init_gui\<lparr> arduino := True, arduino_connected := True \<rparr>)
        (replicate 40 (0, False, 0))) = (False, 0, 40)
   \<and> run_effects (init_gui\<lparr> arduino := True, arduino_connected := True \<rparr>)
        (replicate 40 (0, False, 0))
       = replicate 40 [SetCurrentStatus Monitoring]
   \<and> sighting (observe (1, True, 0.9)
        (final_state (init_gui\<lparr> arduino := True, arduino_connected := True \<rparr>)
           (replicate 40 (0, False, 0))))
       = (True, 1, 0)
   \<and> observe_effects (1, True, 0.9)
        (final_state (init_gui\<lparr> arduino := True, arduino_connected := True \<rparr>)
           (replicate 40 (0, False, 0)))
       = [SetDetectionCountLabel 1, SetCurrentStatus (NewMonkeyDetected 0.9),
          SetLastDetectionLabel 1, ArduinoWrite MONKEY_DETECTED,
          LogMessage (MsgNewMonkey 1 0.9)]"
proof -
  let ?s = "init_gui\<lparr> arduino := True, arduino_connected := True \<rparr>"
  have a: "\<not> monkey_present ?s" by (simp add: init_gui_def)
  have b: "list_all missed (replicate 40 (0::real, False, 0::real))" by (simp add: list_all_iff)
  have c: "detection_count ?s = 0" "no_detection_frames ?s = 0"
    "arduino_connected ?s" "arduino ?s"
    by (simp_all add: init_gui_def)
  from absent_misses_only_count_frames[OF a b, of 1 "0.9"] a b c show ?thesis
    by (simp add: map_replicate_const)
qed

end
